theory Spec2Isabelle
  imports Main
begin

section \<open>Values\<close>

text \<open>
  Document content, activity details and change-feed payloads are JSON values (the
  source types them \<^verbatim>\<open>any\<close>). A JavaScript string is either a literal text
  (\<open>JStr\<close>) or the text that \<^verbatim>\<open>JSON.stringify\<close> yields for a value (\<open>JSer\<close>);
  the serialised text itself is never inspected by the code, so it is kept symbolic.
  Characters are code units below 256.
\<close>

datatype json =
    JNull
  | JBool bool
  | JNum int
  | JStr string
  | JSer json
  | JArr "json list"
  | JObj "(string \<times> json) list"

text \<open>JavaScript truthiness, as used by \<^verbatim>\<open>&&\<close>, \<^verbatim>\<open>||\<close> and \<^verbatim>\<open>!\<close>.\<close>

fun truthy :: "json \<Rightarrow> bool" where
  "truthy JNull = False"
| "truthy (JBool b) = b"
| "truthy (JNum n) = (n \<noteq> 0)"
| "truthy (JStr s) = (s \<noteq> [])"
| "truthy (JSer v) = True"
| "truthy (JArr xs) = True"
| "truthy (JObj kvs) = True"

text \<open>\<^verbatim>\<open>obj.key\<close> read for its truth value; an absent key reads \<^verbatim>\<open>undefined\<close>.\<close>

definition has_truthy :: "(string \<times> json) list \<Rightarrow> string \<Rightarrow> bool" where
  "has_truthy kvs k = (case map_of kvs k of None \<Rightarrow> False | Some v \<Rightarrow> truthy v)"

text \<open>
  \<^verbatim>\<open>String.prototype.trim\<close>: white space and line terminators are removed from
  both ends (tab, LF, VT, FF, CR, space and the no-break space, among code units
  below 256).
\<close>

definition is_space :: "char \<Rightarrow> bool" where
  "is_space ch = (of_char ch \<in> {9, 10, 11, 12, 13, 32, 160 :: nat})"

definition trim :: "string \<Rightarrow> string" where
  "trim s = rev (dropWhile is_space (rev (dropWhile is_space s)))"

section \<open>The persistence layer\<close>

text \<open>
  Tables \<^verbatim>\<open>public.documents\<close> and \<^verbatim>\<open>public.document_activity\<close> of the
  migration. Timestamps are the strings the store and the change feed deliver.
\<close>

record document_row =
  doc_id :: string
  doc_title :: string
  doc_content :: json
  owner_id :: string
  is_public :: bool
  created_at :: string
  updated_at :: string

record activity_row =
  document_id :: string
  user_id :: string
  action :: string
  details :: json
  recorded_at :: string

record db =
  documents :: "document_row list"
  document_activity :: "activity_row list"

text \<open>The columns an \<^verbatim>\<open>update\<close> call sets; an absent column is left as it is.\<close>

record patch =
  set_title :: "string option"
  set_content :: "json option"
  set_updated_at :: "string option"

definition apply_patch :: "patch \<Rightarrow> document_row \<Rightarrow> document_row" where
  "apply_patch p r =
     r\<lparr>doc_title := (case set_title p of None \<Rightarrow> doc_title r | Some t \<Rightarrow> t),
       doc_content := (case set_content p of None \<Rightarrow> doc_content r | Some v \<Rightarrow> v),
       updated_at := (case set_updated_at p of None \<Rightarrow> updated_at r | Some u \<Rightarrow> u)\<rparr>"

text \<open>
  Trigger \<^verbatim>\<open>update_documents_updated_at\<close> (BEFORE UPDATE, for each row):
  \<^verbatim>\<open>NEW.updated_at = now()\<close>, whatever the statement supplied.
\<close>

definition update_document_updated_at :: "string \<Rightarrow> document_row \<Rightarrow> document_row" where
  "update_document_updated_at server_now r = r\<lparr>updated_at := server_now\<rparr>"

text \<open>
  The two kinds of call the editor makes:
  \<^verbatim>\<open>from('documents').update(p).eq('id', i)\<close> and
  \<^verbatim>\<open>from('document_activity').insert([{document_id, user_id, action, details}])\<close>.
\<close>

datatype request =
    UpdateDocuments string patch
  | InsertActivity string string string json

fun perform :: "request \<Rightarrow> string \<Rightarrow> db \<Rightarrow> db" where
  "perform (UpdateDocuments i p) server_now d =
     d\<lparr>documents :=
          map (\<lambda>r. if doc_id r = i
                    then update_document_updated_at server_now (apply_patch p r)
                    else r)
              (documents d)\<rparr>"
| "perform (InsertActivity di ui a ds) server_now d =
     d\<lparr>document_activity := document_activity d @
          [\<lparr>document_id = di, user_id = ui, action = a, details = ds,
            recorded_at = server_now\<rparr>]\<rparr>"

text \<open>
  The client resolves every call to a result with an \<^verbatim>\<open>error\<close> field. A call the
  store refuses or that never reaches it (\<open>fault = Some message\<close>) leaves the tables
  as they were; row-level security is not modelled, the caller is taken to be
  allowed to write the row.
\<close>

definition serve :: "request \<Rightarrow> string option \<Rightarrow> string \<Rightarrow> db \<Rightarrow> string option \<times> db" where
  "serve req fault server_now d =
     (case fault of
        Some message \<Rightarrow> (Some message, d)
      | None \<Rightarrow> (None, perform req server_now d))"

definition find_document :: "string \<Rightarrow> db \<Rightarrow> document_row option" where
  "find_document i d = find (\<lambda>r. doc_id r = i) (documents d)"

section \<open>The editor component\<close>

text \<open>
  The state variables of \<^verbatim>\<open>CollaborativeEditor\<close> (one \<^verbatim>\<open>useState\<close> each) and
  the signed-in user of \<^verbatim>\<open>useAuth\<close>. A \<^verbatim>\<open>Date\<close> is represented by the string
  its \<^verbatim>\<open>toISOString()\<close> returns. A value of this record is also what a function
  created during a render sees for as long as it lives: the closure of that render.
  The state variables \<^verbatim>\<open>collaborators\<close> and \<^verbatim>\<open>loading\<close> take no part in
  saving, renaming or the change feed and are left out.
\<close>

record editor_state =
  document :: "document_row option"
  title :: string
  isEditingTitle :: bool
  tempTitle :: string
  saving :: bool
  lastSaved :: "string option"
  hasUnsavedChanges :: bool
  autoSaveEnabled :: bool
  autoSaveInterval :: nat
  autoSaveTimer :: "nat option"
  user :: "string option"

text \<open>
  What a suspended \<^verbatim>\<open>async\<close> function does when its awaited call resolves,
  with the values it carries across the \<^verbatim>\<open>await\<close>: \<^verbatim>\<open>saveDocument\<close> after its
  update (user id, \<^verbatim>\<open>now\<close>) and after its activity insert (\<^verbatim>\<open>now\<close>);
  \<^verbatim>\<open>updateTitle\<close> after its update (user id, the closure's title, the trimmed
  title) and after its insert (the trimmed title); \<^verbatim>\<open>saveSettings\<close> after its update
  (the dialog's title, auto-save switch and interval).
\<close>

datatype continuation =
    SaveUpdated string string
  | SaveLogged string
  | TitleUpdated string string string
  | TitleLogged string
  | SettingsUpdated string bool nat

text \<open>
  One mounted editor: the current state, the editor widget's content (\<open>None\<close> when
  there is no editor instance), the toasts shown, and what the runtime holds for the
  component: pending timers with the closure their callback was created in, the
  dependencies and the cleanup of the last run of the auto-save effect, the key
  handler and the change-feed handler with their closures, the calls awaiting a
  reply, and a log of every call with the time it was issued. The editor widget is
  one object for the life of the component, so its content is read where it is used,
  not from a closure. Time is counted in milliseconds.
\<close>

record client =
  documentId :: string
  st :: editor_state
  editor :: "json option"
  toasts :: "(string \<times> string) list"
  settingsOpen :: bool
  mounted :: bool
  subscribed :: bool
  clock :: nat
  nextTimer :: nat
  timers :: "(nat \<times> nat \<times> editor_state) list"
  autoSaveDeps :: "bool \<times> bool \<times> nat \<times> bool"
  autoSaveCleanup :: "nat option"
  keyDeps :: bool
  keyClosure :: editor_state
  changeClosure :: editor_state
  inflight :: "(request \<times> continuation) list"
  issued :: "(nat \<times> request) list"

definition toast :: "string \<Rightarrow> string \<Rightarrow> client \<Rightarrow> client" where
  "toast t d c = c\<lparr>toasts := toasts c @ [(t, d)]\<rparr>"

definition setTimeout :: "editor_state \<Rightarrow> nat \<Rightarrow> client \<Rightarrow> nat \<times> client" where
  "setTimeout cl delay c =
     (nextTimer c,
      c\<lparr>timers := timers c @ [(nextTimer c, clock c + delay, cl)],
        nextTimer := Suc (nextTimer c)\<rparr>)"

definition clearTimeout :: "nat \<Rightarrow> client \<Rightarrow> client" where
  "clearTimeout t c = c\<lparr>timers := filter (\<lambda>x. fst x \<noteq> t) (timers c)\<rparr>"

definition issue :: "request \<Rightarrow> continuation \<Rightarrow> client \<Rightarrow> client" where
  "issue req k c =
     c\<lparr>inflight := inflight c @ [(req, k)], issued := issued c @ [(clock c, req)]\<rparr>"

subsection \<open>Rendering and effects\<close>

text \<open>
  The auto-save effect:
  \<^verbatim>\<open>
  useEffect(() => {
    if (autoSaveEnabled && hasUnsavedChanges && !saving) {
      if (autoSaveTimer) clearTimeout(autoSaveTimer);
      const timer = setTimeout(() => { saveDocument(); }, autoSaveInterval * 1000);
      setAutoSaveTimer(timer);
    }
    return () => { if (autoSaveTimer) clearTimeout(autoSaveTimer); };
  }, [hasUnsavedChanges, autoSaveEnabled, autoSaveInterval, saving]);
  \<close>
  The body and the cleanup it returns are created in one render and read that
  render's \<^verbatim>\<open>autoSaveTimer\<close>; the timer's callback calls that render's
  \<^verbatim>\<open>saveDocument\<close>. \<^verbatim>\<open>autoSaveTimer\<close> is not a dependency, so setting it
  renders again without running the effect: the registered cleanup stays the one
  that holds the value from before the new timer was created.
\<close>

definition autoSaveCleanupRun :: "client \<Rightarrow> client" where
  "autoSaveCleanupRun c =
     (case autoSaveCleanup c of None \<Rightarrow> c | Some t \<Rightarrow> clearTimeout t c)"

definition autoSaveEffect :: "editor_state \<Rightarrow> client \<Rightarrow> client" where
  "autoSaveEffect s c =
     (if autoSaveEnabled s \<and> hasUnsavedChanges s \<and> \<not> saving s then
        (let c1 = (case autoSaveTimer s of None \<Rightarrow> c | Some t \<Rightarrow> clearTimeout t c);
             (timer, c2) = setTimeout s (autoSaveInterval s * 1000) c1
         in c2\<lparr>st := (st c2)\<lparr>autoSaveTimer := Some timer\<rparr>,
               autoSaveCleanup := autoSaveTimer s\<rparr>)
      else c\<lparr>autoSaveCleanup := autoSaveTimer s\<rparr>)"

text \<open>
  One render after a batch of state updates. The key handler's effect depends on
  \<^verbatim>\<open>[hasUnsavedChanges]\<close> and registers the handler of this render; the
  auto-save effect runs its previous cleanup and then its body when one of its four
  dependencies changed. An unmounted component does not render.
\<close>

definition render :: "client \<Rightarrow> client" where
  "render c =
     (if mounted c then
        (let s = st c;
             deps = (hasUnsavedChanges s, autoSaveEnabled s, autoSaveInterval s, saving s);
             c1 = (if hasUnsavedChanges s = keyDeps c then c
                   else c\<lparr>keyDeps := hasUnsavedChanges s, keyClosure := s\<rparr>)
         in if deps = autoSaveDeps c1 then c1
            else autoSaveEffect s ((autoSaveCleanupRun c1)\<lparr>autoSaveDeps := deps\<rparr>))
      else c)"

subsection \<open>Saving the document\<close>

text \<open>
  \<^verbatim>\<open>saveDocument\<close> up to its first \<^verbatim>\<open>await\<close>. The guard reads the closure
  (\<^verbatim>\<open>document\<close>, \<^verbatim>\<open>saving\<close>, \<^verbatim>\<open>user\<close>, \<^verbatim>\<open>title\<close>); the content is read
  from the editor widget at this moment, and the update is keyed on the document id
  alone.
\<close>

definition saveDocument :: "editor_state \<Rightarrow> string \<Rightarrow> client \<Rightarrow> client" where
  "saveDocument cl now c =
     (case editor c of
        None \<Rightarrow> c
      | Some content \<Rightarrow>
          (case document cl of
             None \<Rightarrow> c
           | Some d \<Rightarrow>
               if saving cl then c
               else (case user cl of
                  None \<Rightarrow> c
                | Some uid \<Rightarrow>
                    render (issue
                      (UpdateDocuments (documentId c)
                         \<lparr>set_title = Some (title cl), set_content = Some content,
                          set_updated_at = Some now\<rparr>)
                      (SaveUpdated uid now)
                      (c\<lparr>st := (st c)\<lparr>saving := True\<rparr>\<rparr>)))))"

subsection \<open>Renaming and settings\<close>

definition updateTitle :: "editor_state \<Rightarrow> string \<Rightarrow> client \<Rightarrow> client" where
  "updateTitle cl newTitle c =
     (case document cl of
        None \<Rightarrow> c
      | Some d \<Rightarrow>
          (case user cl of
             None \<Rightarrow> c
           | Some uid \<Rightarrow>
               if trim newTitle = [] then c
               else issue
                 (UpdateDocuments (documentId c)
                    \<lparr>set_title = Some (trim newTitle), set_content = None,
                     set_updated_at = None\<rparr>)
                 (TitleUpdated uid (title cl) (trim newTitle)) c))"

definition handleTitleEdit :: "editor_state \<Rightarrow> client \<Rightarrow> client" where
  "handleTitleEdit cl c =
     render (c\<lparr>st := (st c)\<lparr>tempTitle := title cl, isEditingTitle := True\<rparr>\<rparr>)"

definition handleTitleSave :: "editor_state \<Rightarrow> client \<Rightarrow> client" where
  "handleTitleSave cl c =
     (if trim (tempTitle cl) \<noteq> [] \<and> tempTitle cl \<noteq> title cl
      then updateTitle cl (tempTitle cl) c
      else render (c\<lparr>st := (st c)\<lparr>isEditingTitle := False\<rparr>\<rparr>))"

definition handleTitleCancel :: "editor_state \<Rightarrow> client \<Rightarrow> client" where
  "handleTitleCancel cl c =
     render (c\<lparr>st := (st c)\<lparr>tempTitle := title cl, isEditingTitle := False\<rparr>\<rparr>)"

text \<open>
  \<^verbatim>\<open>handleSettingsChange\<close> of the editor, and the tail of \<^verbatim>\<open>saveSettings\<close> of
  \<^verbatim>\<open>DocumentSettings\<close> that calls it.
\<close>

definition handleSettingsChange :: "bool \<Rightarrow> nat \<Rightarrow> client \<Rightarrow> client" where
  "handleSettingsChange en iv c =
     c\<lparr>st := (st c)\<lparr>autoSaveEnabled := en, autoSaveInterval := iv\<rparr>\<rparr>"

definition settingsSaved :: "bool \<Rightarrow> nat \<Rightarrow> client \<Rightarrow> client" where
  "settingsSaved en iv c =
     render ((toast ''Settings saved'' ''Document settings have been updated''
                (handleSettingsChange en iv c))\<lparr>settingsOpen := False\<rparr>)"

text \<open>
  \<^verbatim>\<open>saveSettings\<close>: \<open>localTitle\<close>, \<open>en\<close> and \<open>iv\<close> are the dialog's local fields,
  the closure gives the \<^verbatim>\<open>title\<close> prop.
\<close>

definition saveSettings :: "editor_state \<Rightarrow> string \<Rightarrow> bool \<Rightarrow> nat \<Rightarrow> client \<Rightarrow> client" where
  "saveSettings cl localTitle en iv c =
     (if localTitle \<noteq> title cl
      then issue
        (UpdateDocuments (documentId c)
           \<lparr>set_title = Some localTitle, set_content = None, set_updated_at = None\<rparr>)
        (SettingsUpdated localTitle en iv) c
      else settingsSaved en iv c)"

subsection \<open>Resuming after a reply\<close>

fun resume :: "continuation \<Rightarrow> string option \<Rightarrow> client \<Rightarrow> client" where
  "resume (SaveUpdated uid now) (Some message) c =
     render ((toast ''Error'' (''Failed to save document: '' @ message) c)
               \<lparr>st := (st c)\<lparr>saving := False\<rparr>\<rparr>)"
| "resume (SaveUpdated uid now) None c =
     issue (InsertActivity (documentId c) uid ''edited''
              (JObj [(''type'', JStr ''content_update'')]))
           (SaveLogged now) c"
| "resume (SaveLogged now) r c =
     render ((toast ''Saved'' ''Document saved successfully'' c)
               \<lparr>st := (st c)\<lparr>lastSaved := Some now, hasUnsavedChanges := False,
                              saving := False\<rparr>\<rparr>)"
| "resume (TitleUpdated uid old trimmedTitle) (Some message) c =
     toast ''Error'' (''Failed to update title: '' @ message) c"
| "resume (TitleUpdated uid old trimmedTitle) None c =
     issue (InsertActivity (documentId c) uid ''renamed''
              (JObj [(''old_title'', JStr old), (''new_title'', JStr trimmedTitle)]))
           (TitleLogged trimmedTitle) c"
| "resume (TitleLogged trimmedTitle) r c =
     render ((toast ''Title updated'' ''Document title has been updated successfully'' c)
               \<lparr>st := (st c)\<lparr>title := trimmedTitle, isEditingTitle := False\<rparr>\<rparr>)"
| "resume (SettingsUpdated localTitle en iv) (Some message) c =
     toast ''Error'' (''Failed to save settings: '' @ message) c"
| "resume (SettingsUpdated localTitle en iv) None c =
     settingsSaved en iv (c\<lparr>st := (st c)\<lparr>title := localTitle\<rparr>\<rparr>)"

subsection \<open>The change feed\<close>

record payload =
  eventType :: string
  new :: "document_row option"

text \<open>What \<^verbatim>\<open>handleDocumentChange\<close> hands to \<^verbatim>\<open>editor.commands.setContent\<close>.\<close>

definition incoming :: "json \<Rightarrow> json" where
  "incoming v =
     (case v of
        JStr s \<Rightarrow> JStr s
      | JSer x \<Rightarrow> JSer x
      | JObj kvs \<Rightarrow>
          if has_truthy kvs ''type'' \<or> has_truthy kvs ''content'' then JObj kvs
          else JSer (JObj kvs)
      | _ \<Rightarrow> JSer (if truthy v then v else JStr []))"

text \<open>
  The handler is a \<^verbatim>\<open>useCallback\<close> over \<^verbatim>\<open>[documentId, editor, lastSaved]\<close>; the
  closure gives the \<^verbatim>\<open>lastSaved\<close> it compares with. \<^verbatim>\<open>setContent\<close> replaces
  the editor content and raises no update event.
\<close>

definition handleDocumentChange :: "editor_state \<Rightarrow> payload \<Rightarrow> client \<Rightarrow> client" where
  "handleDocumentChange cl p c =
     (case new p of
        None \<Rightarrow> c
      | Some row \<Rightarrow>
          if doc_id row = documentId c then
            (let c1 = c\<lparr>st := (st c)\<lparr>document := Some row, title := doc_title row\<rparr>\<rparr>
             in render
               (if editor c1 \<noteq> None \<and> truthy (doc_content row)
                   \<and> Some (updated_at row) \<noteq> lastSaved cl
                then c1\<lparr>editor := Some (incoming (doc_content row))\<rparr>
                else c1))
          else c)"

subsection \<open>Opening a document\<close>

definition initial_state :: "string option \<Rightarrow> editor_state" where
  "initial_state u =
     \<lparr>document = None, title = [], isEditingTitle = False, tempTitle = [],
      saving = False, lastSaved = None, hasUnsavedChanges = False,
      autoSaveEnabled = True, autoSaveInterval = 10, autoSaveTimer = None, user = u\<rparr>"

text \<open>
  The component after its first render: every effect has run once with the initial
  state, so the key handler and the change-feed handler hold the initial closure.
\<close>

definition mount :: "string \<Rightarrow> string option \<Rightarrow> client" where
  "mount i u =
     \<lparr>documentId = i, st = initial_state u, editor = Some (JStr []), toasts = [],
      settingsOpen = False, mounted = True, subscribed = True, clock = 0, nextTimer = 1,
      timers = [], autoSaveDeps = (False, True, 10, False), autoSaveCleanup = None,
      keyDeps = False, keyClosure = initial_state u, changeClosure = initial_state u,
      inflight = [], issued = []\<rparr>"

text \<open>\<^verbatim>\<open>fetchDocument\<close> after the row arrived.\<close>

definition loadedContent :: "json \<Rightarrow> json" where
  "loadedContent v =
     (case v of
        JStr s \<Rightarrow> JStr s
      | JSer x \<Rightarrow> JSer x
      | JObj kvs \<Rightarrow>
          if has_truthy kvs ''type'' \<or> has_truthy kvs ''content'' then JObj kvs
          else JSer (JObj kvs)
      | JArr xs \<Rightarrow> JSer (JArr xs)
      | _ \<Rightarrow> JStr [])"

definition fetchDocument :: "document_row \<Rightarrow> client \<Rightarrow> client" where
  "fetchDocument data c =
     render (c\<lparr>st := (st c)\<lparr>document := Some data, title := doc_title data,
                            hasUnsavedChanges := False\<rparr>,
               editor := (if editor c \<noteq> None \<and> truthy (doc_content data)
                          then Some (loadedContent (doc_content data)) else editor c)\<rparr>)"

definition opened :: "document_row \<Rightarrow> string \<Rightarrow> client" where
  "opened data u = fetchDocument data (mount (doc_id data) (Some u))"

subsection \<open>Timers and events\<close>

text \<open>
  A timer that comes due runs its callback: the \<^verbatim>\<open>saveDocument\<close> of the render
  that created it. Time passing fires the due timers in the order they come due.
\<close>

definition fire :: "string \<Rightarrow> nat \<Rightarrow> client \<Rightarrow> client" where
  "fire now t c =
     (case find (\<lambda>x. fst x = t) (timers c) of
        None \<Rightarrow> c
      | Some (i, due, cl) \<Rightarrow> saveDocument cl now ((clearTimeout t c)\<lparr>clock := due\<rparr>))"

definition advance :: "nat \<Rightarrow> string \<Rightarrow> client \<Rightarrow> client" where
  "advance d now c =
     (let target = clock c + d;
          ready = sort_key (\<lambda>x. fst (snd x)) (filter (\<lambda>x. fst (snd x) \<le> target) (timers c))
      in (fold (fire now) (map fst ready) c)\<lparr>clock := target\<rparr>)"

text \<open>
  Unmounting runs the registered cleanups: the auto-save effect's, the removal of
  the key listener and \<^verbatim>\<open>supabase.removeChannel(channel)\<close>.
\<close>

definition close :: "client \<Rightarrow> client" where
  "close c =
     (if mounted c then (autoSaveCleanupRun c)\<lparr>mounted := False, subscribed := False\<rparr>
      else c)"

text \<open>
  What can happen to an open editor. \<open>LocalEdit\<close> is the user changing the content
  (\<^verbatim>\<open>onUpdate\<close>); \<open>ClickSave\<close> the Save button, which carries the current
  render's \<^verbatim>\<open>saveDocument\<close> and is disabled while \<^verbatim>\<open>saving || !hasUnsavedChanges\<close>;
  \<open>CtrlS\<close> the keyboard shortcut, served by the registered key handler; \<open>Reply\<close>
  the store answering the \<open>k\<close>-th call in flight, with a fault or with the store's
  time. Events that read the clock carry the \<^verbatim>\<open>new Date()\<close> they see.
\<close>

datatype event =
    LocalEdit json
  | ClickSave string
  | CtrlS string
  | Advance nat string
  | Reply nat "string option" string
  | Remote payload
  | TitleEdit
  | TitleInput string
  | TitleSave
  | TitleCancel
  | SettingsSave string bool nat
  | Close

definition reply :: "nat \<Rightarrow> string option \<Rightarrow> string \<Rightarrow> client \<times> db \<Rightarrow> client \<times> db" where
  "reply k fault server_now w =
     (case w of (c, d) \<Rightarrow>
        if k < length (inflight c) then
          (case inflight c ! k of (req, kont) \<Rightarrow>
             (case serve req fault server_now d of (err, d') \<Rightarrow>
                (resume kont err
                   (c\<lparr>inflight := take k (inflight c) @ drop (Suc k) (inflight c)\<rparr>), d')))
        else (c, d))"

fun step :: "event \<Rightarrow> client \<times> db \<Rightarrow> client \<times> db" where
  "step (LocalEdit v) (c, d) =
     (if mounted c \<and> editor c \<noteq> None
      then render (c\<lparr>editor := Some v, st := (st c)\<lparr>hasUnsavedChanges := True\<rparr>\<rparr>)
      else c, d)"
| "step (ClickSave now) (c, d) =
     (if mounted c \<and> \<not> (saving (st c) \<or> \<not> hasUnsavedChanges (st c))
      then saveDocument (st c) now c else c, d)"
| "step (CtrlS now) (c, d) =
     (if mounted c \<and> hasUnsavedChanges (keyClosure c)
      then saveDocument (keyClosure c) now c else c, d)"
| "step (Advance n now) (c, d) = (advance n now c, d)"
| "step (Reply k fault server_now) (c, d) = reply k fault server_now (c, d)"
| "step (Remote p) (c, d) =
     (if subscribed c then handleDocumentChange (changeClosure c) p c else c, d)"
| "step TitleEdit (c, d) = (if mounted c then handleTitleEdit (st c) c else c, d)"
| "step (TitleInput s) (c, d) =
     (if mounted c then render (c\<lparr>st := (st c)\<lparr>tempTitle := s\<rparr>\<rparr>) else c, d)"
| "step TitleSave (c, d) = (if mounted c then handleTitleSave (st c) c else c, d)"
| "step TitleCancel (c, d) = (if mounted c then handleTitleCancel (st c) c else c, d)"
| "step (SettingsSave localTitle en iv) (c, d) =
     (if mounted c then saveSettings (st c) localTitle en iv c else c, d)"
| "step Close (c, d) = (close c, d)"

fun run :: "event list \<Rightarrow> client \<times> db \<Rightarrow> client \<times> db" where
  "run [] w = w"
| "run (e # es) w = run es (step e w)"

subsection \<open>The gate of the change-feed handler\<close>

text \<open>
  The condition under which \<^verbatim>\<open>handleDocumentChange\<close> calls \<^verbatim>\<open>setContent\<close>, apart
  from the presence of an editor, and the content it then sets.
\<close>

definition applies :: "editor_state \<Rightarrow> string \<Rightarrow> payload \<Rightarrow> bool" where
  "applies cl i p =
     (case new p of
        None \<Rightarrow> False
      | Some row \<Rightarrow>
          doc_id row = i \<and> truthy (doc_content row) \<and> Some (updated_at row) \<noteq> lastSaved cl)"

definition delivered :: "payload \<Rightarrow> json" where
  "delivered p = (case new p of None \<Rightarrow> JNull | Some row \<Rightarrow> incoming (doc_content row))"

section \<open>A sample document\<close>

text \<open>
  The document \<open>Draft\<close> as it is created by the dashboard (content \<^verbatim>\<open>{}\<close>), the
  store holding it, and an editor that user \<open>u1\<close> has opened on it.
\<close>

definition draft :: document_row where
  "draft = \<lparr>doc_id = ''d1'', doc_title = ''Draft'', doc_content = JObj [], owner_id = ''u1'',
            is_public = False, created_at = ''T0'', updated_at = ''T0''\<rparr>"

definition store0 :: db where
  "store0 = \<lparr>documents = [draft], document_activity = []\<rparr>"

definition session0 :: client where
  "session0 = opened draft ''u1''"

text \<open>The same editor after the user has typed: the content is \<open>v\<close>, not yet saved.\<close>

definition editing :: "json \<Rightarrow> client" where
  "editing v = fst (step (LocalEdit v) (session0, store0))"

text \<open>
  The same editor after the user typed \<open>B\<close>, another user renamed the document to
  \<open>Renamed\<close> (the change feed delivered the row), and the user typed \<open>B2\<close>. The
  session shows the new title; the key handler is still the one registered at the
  first edit.
\<close>

definition renamed0 :: client where
  "renamed0 = fst (run [LocalEdit (JStr ''B''),
                        Remote \<lparr>eventType = ''UPDATE'',
                                new = Some (draft\<lparr>doc_title := ''Renamed'',
                                                  updated_at := ''T1''\<rparr>)\<rparr>,
                        LocalEdit (JStr ''B2'')] (session0, store0))"

section \<open>What rendering leaves alone\<close>

lemma clearTimeout_frame [simp]:
  "documentId (clearTimeout t c) = documentId c"
  "st (clearTimeout t c) = st c"
  "editor (clearTimeout t c) = editor c"
  "toasts (clearTimeout t c) = toasts c"
  "settingsOpen (clearTimeout t c) = settingsOpen c"
  "mounted (clearTimeout t c) = mounted c"
  "subscribed (clearTimeout t c) = subscribed c"
  "clock (clearTimeout t c) = clock c"
  "changeClosure (clearTimeout t c) = changeClosure c"
  "inflight (clearTimeout t c) = inflight c"
  "issued (clearTimeout t c) = issued c"
  by (simp_all add: clearTimeout_def)

lemma render_frame [simp]:
  "documentId (render c) = documentId c"
  "editor (render c) = editor c"
  "toasts (render c) = toasts c"
  "settingsOpen (render c) = settingsOpen c"
  "mounted (render c) = mounted c"
  "subscribed (render c) = subscribed c"
  "clock (render c) = clock c"
  "changeClosure (render c) = changeClosure c"
  "inflight (render c) = inflight c"
  "issued (render c) = issued c"
  by (simp_all add: render_def autoSaveEffect_def autoSaveCleanupRun_def setTimeout_def
        Let_def split: option.splits)

lemma render_state [simp]:
  "document (st (render c)) = document (st c)"
  "title (st (render c)) = title (st c)"
  "isEditingTitle (st (render c)) = isEditingTitle (st c)"
  "tempTitle (st (render c)) = tempTitle (st c)"
  "saving (st (render c)) = saving (st c)"
  "lastSaved (st (render c)) = lastSaved (st c)"
  "hasUnsavedChanges (st (render c)) = hasUnsavedChanges (st c)"
  "autoSaveEnabled (st (render c)) = autoSaveEnabled (st c)"
  "autoSaveInterval (st (render c)) = autoSaveInterval (st c)"
  "user (st (render c)) = user (st c)"
  by (simp_all add: render_def autoSaveEffect_def autoSaveCleanupRun_def setTimeout_def
        Let_def split: option.splits)

lemma run_append: "run (es @ fs) w = run fs (run es w)"
  by (induction es arbitrary: w) simp_all

lemma session0_fields:
  "mounted session0" "subscribed session0" "editor session0 = Some (JSer (JObj []))"
  "document (st session0) = Some draft" "user (st session0) = Some ''u1''"
  "\<not> saving (st session0)" "\<not> hasUnsavedChanges (st session0)" "inflight session0 = []"
  "documentId session0 = ''d1''" "title (st session0) = ''Draft''" "toasts session0 = []"
  "lastSaved (changeClosure session0) = None"
  by (simp_all add: session0_def opened_def fetchDocument_def mount_def initial_state_def
        draft_def loadedContent_def has_truthy_def)

lemma editing_fields:
  "mounted (editing v)" "subscribed (editing v)" "editor (editing v) = Some v"
  "hasUnsavedChanges (st (editing v))" "documentId (editing v) = ''d1''"
  "lastSaved (changeClosure (editing v)) = None" "\<not> saving (st (editing v))"
  "document (st (editing v)) = Some draft" "user (st (editing v)) = Some ''u1''"
  "inflight (editing v) = []" "title (st (editing v)) = ''Draft''" "toasts (editing v) = []"
  by (simp_all add: editing_def session0_fields)

section \<open>Helper facts\<close>

lemma saveDocument_go:
  assumes "editor c = Some v" "document cl = Some r" "\<not> saving cl" "user cl = Some uid"
  shows "saveDocument cl now c =
           render (issue
             (UpdateDocuments (documentId c)
                \<lparr>set_title = Some (title cl), set_content = Some v, set_updated_at = Some now\<rparr>)
             (SaveUpdated uid now) (c\<lparr>st := (st c)\<lparr>saving := True\<rparr>\<rparr>))"
  using assms by (simp add: saveDocument_def)

lemma saveDocument_fields:
  assumes "editor c = Some v" "document cl = Some r" "\<not> saving cl" "user cl = Some uid"
  shows "inflight (saveDocument cl now c) = inflight c @
           [(UpdateDocuments (documentId c)
               \<lparr>set_title = Some (title cl), set_content = Some v, set_updated_at = Some now\<rparr>,
             SaveUpdated uid now)]"
    and "toasts (saveDocument cl now c) = toasts c"
    and "documentId (saveDocument cl now c) = documentId c"
    and "mounted (saveDocument cl now c) = mounted c"
    and "editor (saveDocument cl now c) = editor c"
  using assms by (simp_all add: saveDocument_go issue_def)

lemma reply_last:
  assumes "inflight c = xs @ [(req, k)]"
  shows "reply (length xs) fault sn (c, d) =
           (resume k (fst (serve req fault sn d)) (c\<lparr>inflight := xs\<rparr>),
            snd (serve req fault sn d))"
  using assms by (simp add: reply_def split: prod.splits)

lemma save_completes:
  fixes c :: client
  assumes "editor c = Some v" "document cl = Some r" "\<not> saving cl" "user cl = Some uid"
  defines "k \<equiv> length (inflight c)"
  shows "snd (run [Reply k None sn] (saveDocument cl now c, d)) =
           perform (UpdateDocuments (documentId c)
             \<lparr>set_title = Some (title cl), set_content = Some v, set_updated_at = Some now\<rparr>) sn d"
    and "toasts (fst (run [Reply k None sn, Reply k af sn'] (saveDocument cl now c, d))) =
           toasts c @ [(''Saved'', ''Document saved successfully'')]"
    and "lastSaved (st (fst (run [Reply k None sn, Reply k af sn'] (saveDocument cl now c, d)))) =
           Some now"
    and "\<not> hasUnsavedChanges (st (fst (run [Reply k None sn, Reply k af sn']
           (saveDocument cl now c, d))))"
    and "\<not> saving (st (fst (run [Reply k None sn, Reply k af sn'] (saveDocument cl now c, d))))"
    and "documents (snd (run [Reply k None sn, Reply k af sn'] (saveDocument cl now c, d))) =
           map (\<lambda>r. if doc_id r = documentId c
                     then r\<lparr>doc_title := title cl, doc_content := v, updated_at := sn\<rparr> else r)
             (documents d)"
    and "document_activity (snd (run [Reply k None sn, Reply k af sn'] (saveDocument cl now c, d))) =
           (case af of
              None \<Rightarrow> document_activity d @
                [\<lparr>document_id = documentId c, user_id = uid, action = ''edited'',
                  details = JObj [(''type'', JStr ''content_update'')], recorded_at = sn'\<rparr>]
            | Some m \<Rightarrow> document_activity d)"
proof -
  let ?req = "UpdateDocuments (documentId c)
                \<lparr>set_title = Some (title cl), set_content = Some v, set_updated_at = Some now\<rparr>"
  let ?ins = "InsertActivity (documentId c) uid ''edited'' (JObj [(''type'', JStr ''content_update'')])"
  define c1 where "c1 = saveDocument cl now c"
  have f1: "inflight c1 = inflight c @ [(?req, SaveUpdated uid now)]" "toasts c1 = toasts c"
    "documentId c1 = documentId c"
    unfolding c1_def using saveDocument_fields [OF assms(1-4), of now] by simp_all
  define c2 where "c2 = issue ?ins (SaveLogged now) (c1\<lparr>inflight := inflight c\<rparr>)"
  have r1: "run [Reply k None sn] (c1, d) = (c2, perform ?req sn d)"
    unfolding k_def using f1(3) by (simp add: reply_last [OF f1(1)] serve_def c2_def)
  have f2: "inflight c2 = inflight c @ [(?ins, SaveLogged now)]" "toasts c2 = toasts c"
    by (simp_all add: c2_def issue_def f1)
  define c3 where "c3 = resume (SaveLogged now) af (c2\<lparr>inflight := inflight c\<rparr>)"
  have r2: "run [Reply k None sn, Reply k af sn'] (c1, d)
              = (c3, snd (serve ?ins af sn' (perform ?req sn d)))"
    unfolding k_def using f1(3) by (simp add: reply_last [OF f1(1)] serve_def [of ?req]
        c2_def [symmetric] reply_last [OF f2(1)] c3_def)
  have f3: "toasts c3 = toasts c @ [(''Saved'', ''Document saved successfully'')]"
    "lastSaved (st c3) = Some now" "\<not> hasUnsavedChanges (st c3)" "\<not> saving (st c3)"
    by (simp_all add: c3_def toast_def f2)
  show "snd (run [Reply k None sn] (saveDocument cl now c, d)) = perform ?req sn d"
    using r1 by (simp add: c1_def)
  show "toasts (fst (run [Reply k None sn, Reply k af sn'] (saveDocument cl now c, d))) =
           toasts c @ [(''Saved'', ''Document saved successfully'')]"
    using r2 f3 by (simp add: c1_def)
  show "lastSaved (st (fst (run [Reply k None sn, Reply k af sn'] (saveDocument cl now c, d)))) =
           Some now"
    using r2 f3 by (simp add: c1_def)
  show "\<not> hasUnsavedChanges (st (fst (run [Reply k None sn, Reply k af sn']
           (saveDocument cl now c, d))))"
    using r2 f3 by (simp add: c1_def)
  show "\<not> saving (st (fst (run [Reply k None sn, Reply k af sn'] (saveDocument cl now c, d))))"
    using r2 f3 by (simp add: c1_def)
  show "documents (snd (run [Reply k None sn, Reply k af sn'] (saveDocument cl now c, d))) =
           map (\<lambda>r. if doc_id r = documentId c
                     then r\<lparr>doc_title := title cl, doc_content := v, updated_at := sn\<rparr> else r)
             (documents d)"
    using r2 by (simp add: c1_def serve_def apply_patch_def update_document_updated_at_def
        split: option.splits)
  show "document_activity (snd (run [Reply k None sn, Reply k af sn'] (saveDocument cl now c, d))) =
           (case af of
              None \<Rightarrow> document_activity d @
                [\<lparr>document_id = documentId c, user_id = uid, action = ''edited'',
                  details = JObj [(''type'', JStr ''content_update'')], recorded_at = sn'\<rparr>]
            | Some m \<Rightarrow> document_activity d)"
    using r2 by (simp add: c1_def serve_def apply_patch_def update_document_updated_at_def
        split: option.splits)
qed

lemma click_save:
  assumes "mounted c" "hasUnsavedChanges (st c)" "\<not> saving (st c)"
  shows "step (ClickSave now) (c, d) = (saveDocument (st c) now c, d)"
  using assms by simp

lemma ctrl_s_save:
  assumes "mounted c" "hasUnsavedChanges (keyClosure c)"
  shows "step (CtrlS now) (c, d) = (saveDocument (keyClosure c) now c, d)"
  using assms by simp

lemma timer_save:
  assumes "find (\<lambda>x. fst x = t) (timers c) = Some (t, due, cl)"
  shows "fire now t c = saveDocument cl now ((clearTimeout t c)\<lparr>clock := due\<rparr>)"
  using assms by (simp add: fire_def)

lemma edits_run:
  assumes "mounted c" "editor c \<noteq> None"
  shows "snd (run (map LocalEdit cs) (c, d)) = d
       \<and> mounted (fst (run (map LocalEdit cs) (c, d)))
       \<and> editor (fst (run (map LocalEdit cs) (c, d))) = (if cs = [] then editor c else Some (last cs))
       \<and> hasUnsavedChanges (st (fst (run (map LocalEdit cs) (c, d)))) = (cs \<noteq> [] \<or> hasUnsavedChanges (st c))
       \<and> saving (st (fst (run (map LocalEdit cs) (c, d)))) = saving (st c)
       \<and> document (st (fst (run (map LocalEdit cs) (c, d)))) = document (st c)
       \<and> user (st (fst (run (map LocalEdit cs) (c, d)))) = user (st c)
       \<and> title (st (fst (run (map LocalEdit cs) (c, d)))) = title (st c)
       \<and> documentId (fst (run (map LocalEdit cs) (c, d))) = documentId c
       \<and> inflight (fst (run (map LocalEdit cs) (c, d))) = inflight c"
  using assms
proof (induction cs arbitrary: c)
  case Nil
  then show ?case by simp
next
  case (Cons x xs)
  let ?c1 = "render (c\<lparr>editor := Some x, st := (st c)\<lparr>hasUnsavedChanges := True\<rparr>\<rparr>)"
  have s: "step (LocalEdit x) (c, d) = (?c1, d)"
    using Cons.prems by simp
  have m: "mounted ?c1" "editor ?c1 \<noteq> None"
    using Cons.prems by simp_all
  from Cons.IH [OF m] show ?case
    by (simp only: list.map run.simps s) simp
qed

lemma find_rewritten:
  assumes "\<And>r. doc_id (f r) = doc_id r"
  shows "find (\<lambda>r. doc_id r = i) (map (\<lambda>r. if doc_id r = i then f r else r) rows) =
           map_option f (find (\<lambda>r. doc_id r = i) rows)"
  using assms by (induction rows) simp_all

lemma find_document_saved:
  "find_document i (perform (UpdateDocuments i
       \<lparr>set_title = Some t, set_content = Some v, set_updated_at = Some u\<rparr>) sn d) =
     map_option (\<lambda>r. r\<lparr>doc_title := t, doc_content := v, updated_at := sn\<rparr>) (find_document i d)"
  unfolding find_document_def perform.simps apply_patch_def update_document_updated_at_def
  by (simp add: find_rewritten)

lemma save_after_edits:
  assumes "mounted c" "editor c \<noteq> None" "cs \<noteq> []"
    and "document cl = Some r" "user cl = Some uid" "\<not> saving cl"
  shows "snd (run (map LocalEdit later @ [Reply (length (inflight c)) None sn])
                (saveDocument cl now (fst (run (map LocalEdit cs) (c, d))), d)) =
           perform (UpdateDocuments (documentId c)
             \<lparr>set_title = Some (title cl), set_content = Some (last cs),
              set_updated_at = Some now\<rparr>) sn d"
proof -
  define c1 where "c1 = fst (run (map LocalEdit cs) (c, d))"
  have f1: "mounted c1" "editor c1 = Some (last cs)" "documentId c1 = documentId c"
    "inflight c1 = inflight c"
    using edits_run [OF assms(1,2), of cs d] assms(3) by (simp_all add: c1_def)
  define c2 where "c2 = saveDocument cl now c1"
  let ?req = "UpdateDocuments (documentId c)
     \<lparr>set_title = Some (title cl), set_content = Some (last cs), set_updated_at = Some now\<rparr>"
  have f2: "inflight c2 = inflight c @ [(?req, SaveUpdated uid now)]" "mounted c2"
    "editor c2 \<noteq> None"
    using saveDocument_fields [OF f1(2) assms(4) assms(6) assms(5), of now] f1
    by (simp_all add: c2_def)
  define c3 where "c3 = fst (run (map LocalEdit later) (c2, d))"
  have e3: "run (map LocalEdit later) (c2, d) = (c3, d)"
    using edits_run [OF f2(2,3), of later d] by (simp add: c3_def prod_eq_iff)
  have f3: "inflight c3 = inflight c @ [(?req, SaveUpdated uid now)]"
    using edits_run [OF f2(2,3), of later d] f2(1) by (simp add: c3_def)
  show ?thesis
    unfolding c1_def [symmetric] c2_def [symmetric]
    by (simp only: run_append run.simps e3 step.simps(5) reply_last [OF f3] serve_def
        option.case snd_conv)
qed

lemma updateTitle_completes:
  fixes c :: client
  assumes "document cl = Some r" "user cl = Some uid" "trim t \<noteq> []"
  defines "k \<equiv> length (inflight c)"
  shows "toasts (fst (run [Reply k None sn, Reply k af sn'] (updateTitle cl t c, d))) =
           toasts c @ [(''Title updated'', ''Document title has been updated successfully'')]"
    and "title (st (fst (run [Reply k None sn, Reply k af sn'] (updateTitle cl t c, d)))) = trim t"
    and "\<not> isEditingTitle (st (fst (run [Reply k None sn, Reply k af sn']
           (updateTitle cl t c, d))))"
    and "documents (snd (run [Reply k None sn, Reply k af sn'] (updateTitle cl t c, d))) =
           map (\<lambda>r. if doc_id r = documentId c then r\<lparr>doc_title := trim t, updated_at := sn\<rparr>
                     else r) (documents d)"
    and "document_activity (snd (run [Reply k None sn, Reply k af sn'] (updateTitle cl t c, d))) =
           (case af of
              None \<Rightarrow> document_activity d @
                [\<lparr>document_id = documentId c, user_id = uid, action = ''renamed'',
                  details = JObj [(''old_title'', JStr (title cl)), (''new_title'', JStr (trim t))],
                  recorded_at = sn'\<rparr>]
            | Some m \<Rightarrow> document_activity d)"
    and "map snd (issued (fst (run [Reply k None sn, Reply k af sn'] (updateTitle cl t c, d)))) =
           map snd (issued c) @
             [UpdateDocuments (documentId c)
                \<lparr>set_title = Some (trim t), set_content = None, set_updated_at = None\<rparr>,
              InsertActivity (documentId c) uid ''renamed''
                (JObj [(''old_title'', JStr (title cl)), (''new_title'', JStr (trim t))])]"
proof -
  let ?req = "UpdateDocuments (documentId c)
                \<lparr>set_title = Some (trim t), set_content = None, set_updated_at = None\<rparr>"
  let ?ins = "InsertActivity (documentId c) uid ''renamed''
                (JObj [(''old_title'', JStr (title cl)), (''new_title'', JStr (trim t))])"
  define c1 where "c1 = updateTitle cl t c"
  have c1: "c1 = issue ?req (TitleUpdated uid (title cl) (trim t)) c"
    using assms(1-3) by (simp add: c1_def updateTitle_def)
  have f1: "inflight c1 = inflight c @ [(?req, TitleUpdated uid (title cl) (trim t))]"
    "toasts c1 = toasts c" "documentId c1 = documentId c"
    "map snd (issued c1) = map snd (issued c) @ [?req]"
    by (simp_all add: c1 issue_def)
  define c2 where "c2 = issue ?ins (TitleLogged (trim t)) (c1\<lparr>inflight := inflight c\<rparr>)"
  have f2: "inflight c2 = inflight c @ [(?ins, TitleLogged (trim t))]" "toasts c2 = toasts c"
    "map snd (issued c2) = map snd (issued c) @ [?req, ?ins]"
    by (simp_all add: c2_def issue_def f1)
  define c3 where "c3 = resume (TitleLogged (trim t)) af (c2\<lparr>inflight := inflight c\<rparr>)"
  have r2: "run [Reply k None sn, Reply k af sn'] (c1, d)
              = (c3, snd (serve ?ins af sn' (perform ?req sn d)))"
    unfolding k_def using f1(3) by (simp add: reply_last [OF f1(1)] serve_def [of ?req]
        c2_def [symmetric] reply_last [OF f2(1)] c3_def)
  have f3: "toasts c3 = toasts c @ [(''Title updated'', ''Document title has been updated successfully'')]"
    "title (st c3) = trim t" "\<not> isEditingTitle (st c3)"
    "map snd (issued c3) = map snd (issued c) @ [?req, ?ins]"
    by (simp_all add: c3_def toast_def f2)
  show "toasts (fst (run [Reply k None sn, Reply k af sn'] (updateTitle cl t c, d))) =
           toasts c @ [(''Title updated'', ''Document title has been updated successfully'')]"
    using r2 f3 by (simp add: c1_def)
  show "title (st (fst (run [Reply k None sn, Reply k af sn'] (updateTitle cl t c, d)))) = trim t"
    using r2 f3 by (simp add: c1_def)
  show "\<not> isEditingTitle (st (fst (run [Reply k None sn, Reply k af sn']
           (updateTitle cl t c, d))))"
    using r2 f3 by (simp add: c1_def)
  show "documents (snd (run [Reply k None sn, Reply k af sn'] (updateTitle cl t c, d))) =
           map (\<lambda>r. if doc_id r = documentId c then r\<lparr>doc_title := trim t, updated_at := sn\<rparr>
                     else r) (documents d)"
    using r2 by (simp add: c1_def serve_def apply_patch_def update_document_updated_at_def
        split: option.splits)
  show "document_activity (snd (run [Reply k None sn, Reply k af sn'] (updateTitle cl t c, d))) =
           (case af of
              None \<Rightarrow> document_activity d @
                [\<lparr>document_id = documentId c, user_id = uid, action = ''renamed'',
                  details = JObj [(''old_title'', JStr (title cl)), (''new_title'', JStr (trim t))],
                  recorded_at = sn'\<rparr>]
            | Some m \<Rightarrow> document_activity d)"
    using r2 by (simp add: c1_def serve_def split: option.splits)
  show "map snd (issued (fst (run [Reply k None sn, Reply k af sn'] (updateTitle cl t c, d)))) =
           map snd (issued c) @ [?req, ?ins]"
    using r2 f3 by (simp add: c1_def)
qed

lemma updateTitle_blank:
  assumes "trim newTitle = []"
  shows "updateTitle cl newTitle c = c"
  using assms by (simp add: updateTitle_def split: option.splits)

lemma saveDocument_guarded:
  assumes "saving cl"
  shows "saveDocument cl now c = c"
  using assms by (simp add: saveDocument_def split: option.splits)

lemma click_save_disabled:
  assumes "saving (st c)"
  shows "step (ClickSave now) (c, d) = (c, d)"
  using assms by simp

lemma close_twice: "close (close c) = close c"
  by (simp add: close_def)

lemma close_unsubscribes: "subscribed (close c) = (subscribed c \<and> \<not> mounted c)"
  by (simp add: close_def autoSaveCleanupRun_def split: option.splits)

lemma handleDocumentChange_editor:
  "editor (handleDocumentChange cl p c) =
     (case new p of
        None \<Rightarrow> editor c
      | Some row \<Rightarrow>
          if doc_id row = documentId c \<and> editor c \<noteq> None \<and> truthy (doc_content row)
             \<and> Some (updated_at row) \<noteq> lastSaved cl
          then Some (incoming (doc_content row)) else editor c)"
  by (auto simp add: handleDocumentChange_def Let_def split: option.splits)

lemma handleDocumentChange_frame [simp]:
  "documentId (handleDocumentChange cl p c) = documentId c"
  "subscribed (handleDocumentChange cl p c) = subscribed c"
  "changeClosure (handleDocumentChange cl p c) = changeClosure c"
  "hasUnsavedChanges (st (handleDocumentChange cl p c)) = hasUnsavedChanges (st c)"
  by (simp_all add: handleDocumentChange_def Let_def split: option.splits)

lemma remote_step:
  assumes "subscribed c" "editor c = Some local"
  shows "editor (fst (step (Remote p) (c, d))) =
           Some (if applies (changeClosure c) (documentId c) p then delivered p else local)"
  using assms
  by (simp add: handleDocumentChange_editor applies_def delivered_def split: option.splits)

text \<open>The definitions a run from \<open>session0\<close> unfolds to.\<close>

lemmas evaluate = session0_def opened_def fetchDocument_def mount_def initial_state_def draft_def
  store0_def loadedContent_def has_truthy_def render_def autoSaveEffect_def
  autoSaveCleanupRun_def setTimeout_def clearTimeout_def advance_def fire_def saveDocument_def
  issue_def toast_def reply_def serve_def apply_patch_def update_document_updated_at_def
  close_def saveSettings_def settingsSaved_def handleSettingsChange_def Let_def

lemma renamed0_fields:
  "mounted renamed0" "editor renamed0 = Some (JStr ''B2'')" "documentId renamed0 = ''d1''"
  "inflight renamed0 = []" "toasts renamed0 = []" "title (st renamed0) = ''Renamed''"
  "hasUnsavedChanges (keyClosure renamed0)" "document (keyClosure renamed0) = Some draft"
  "\<not> saving (keyClosure renamed0)" "user (keyClosure renamed0) = Some ''u1''"
  "title (keyClosure renamed0) = ''Draft''"
  by (simp_all add: renamed0_def evaluate handleDocumentChange_def incoming_def)

section \<open>Saving and conflicts\<close>

text \<open>
  C1, as the code has it. A save carries no expected \<^verbatim>\<open>updated_at\<close> and the store
  compares nothing: the update is keyed on the document id alone. Every call of
  \<^verbatim>\<open>saveDocument\<close> that its guard lets through, from the Save button
  (\<open>click_save\<close>), the key handler (\<open>ctrl_s_save\<close>) or a timer (\<open>timer_save\<close>),
  with the closure \<open>cl\<close> of whatever render created it, and whose update the store
  executes, gives the row the editor content read when the save began and the title
  that closure holds, whatever the row's persisted \<^verbatim>\<open>updated_at\<close> is and whatever
  baseline the session loaded, and the session reports success; there is no
  stale-write failure. When two sessions begin a save from the same baseline, both
  succeed, and the row holds what the save executed last wrote.
\<close>

theorem save_overwrites_whatever_is_stored:
  assumes "editor a = Some va" "document cla = Some ra" "\<not> saving cla" "user cla = Some ua"
    and "editor b = Some vb" "document clb = Some rb" "\<not> saving clb" "user clb = Some ub"
    and "documentId a = documentId b"
  shows "let a1 = saveDocument cla n1 a;
             b1 = saveDocument clb n2 b;
             ka = length (inflight a);
             kb = length (inflight b);
             wa = run [Reply ka None s1, Reply ka fa t1] (a1, d);
             wb = run [Reply kb None s2, Reply kb fb t2] (b1, snd wa)
         in toasts (fst wa) = toasts a @ [(''Saved'', ''Document saved successfully'')]
          \<and> toasts (fst wb) = toasts b @ [(''Saved'', ''Document saved successfully'')]
          \<and> documents (snd wa) =
              map (\<lambda>r. if doc_id r = documentId a
                        then r\<lparr>doc_title := title cla, doc_content := va, updated_at := s1\<rparr>
                        else r) (documents d)
          \<and> documents (snd wb) =
              map (\<lambda>r. if doc_id r = documentId b
                        then r\<lparr>doc_title := title clb, doc_content := vb, updated_at := s2\<rparr>
                        else r) (documents d)"
proof -
  note sa = save_completes [OF assms(1-4)]
  note sb = save_completes [OF assms(5-8)]
  have twice: "map (\<lambda>r. if doc_id r = documentId b
                        then r\<lparr>doc_title := title clb, doc_content := vb, updated_at := s2\<rparr>
                        else r)
                 (map (\<lambda>r. if doc_id r = documentId a
                        then r\<lparr>doc_title := title cla, doc_content := va, updated_at := s1\<rparr>
                        else r) (documents d)) =
               map (\<lambda>r. if doc_id r = documentId b
                        then r\<lparr>doc_title := title clb, doc_content := vb, updated_at := s2\<rparr>
                        else r) (documents d)"
    using assms(9) by simp
  show ?thesis
    unfolding Let_def
    by (simp only: sa(2) sa(6) sb(2) sb(6) twice)
qed

theorem save_overwrites_whatever_is_stored_witness:
  "editor (editing (JStr ''A'')) = Some (JStr ''A'')
   \<and> document (st (editing (JStr ''A''))) = Some draft
   \<and> \<not> saving (st (editing (JStr ''A'')))
   \<and> user (st (editing (JStr ''A''))) = Some ''u1''
   \<and> editor renamed0 = Some (JStr ''B2'')
   \<and> document (keyClosure renamed0) = Some draft
   \<and> \<not> saving (keyClosure renamed0)
   \<and> user (keyClosure renamed0) = Some ''u1''
   \<and> documentId (editing (JStr ''A'')) = documentId renamed0
   \<and> title (st renamed0) = ''Renamed''
   \<and> (let a1 = fst (step (ClickSave ''n1'') (editing (JStr ''A''), store0));
           b1 = fst (step (CtrlS ''n2'') (renamed0, store0));
           wa = run [Reply 0 None ''T1'', Reply 0 None ''T1''] (a1, store0);
           wb = run [Reply 0 None ''T2'', Reply 0 None ''T2''] (b1, snd wa)
       in toasts (fst wa) = [(''Saved'', ''Document saved successfully'')]
        \<and> toasts (fst wb) = [(''Saved'', ''Document saved successfully'')]
        \<and> documents (snd wb) =
             [draft\<lparr>doc_title := ''Draft'', doc_content := JStr ''B2'', updated_at := ''T2''\<rparr>])"
proof -
  note a = editing_fields [of "JStr ''A''"]
  note b = renamed0_fields
  have i: "documentId (editing (JStr ''A'')) = documentId renamed0"
    by (simp add: editing_fields renamed0_fields)
  have ca: "step (ClickSave ''n1'') (editing (JStr ''A''), store0) =
              (saveDocument (st (editing (JStr ''A''))) ''n1'' (editing (JStr ''A'')), store0)"
    using a(1) a(4) a(7) by (rule click_save)
  have cb: "step (CtrlS ''n2'') (renamed0, store0) =
              (saveDocument (keyClosure renamed0) ''n2'' renamed0, store0)"
    using b(1) b(7) by (rule ctrl_s_save)
  show ?thesis
    unfolding ca cb fst_conv
    using save_overwrites_whatever_is_stored
      [OF a(3) a(8) a(7) a(9) b(2) b(8) b(9) b(10) i,
       of "''n1''" "''n2''" "''T1''" None "''T1''" store0 "''T2''" None "''T2''"]
    by (simp add: Let_def editing_fields renamed0_fields store0_def draft_def)
qed

text \<open>
  C1, as stated, fails: sessions \<open>A\<close> and \<open>B\<close> loaded the document at \<open>T0\<close>; \<open>A\<close>
  saves, the row's \<^verbatim>\<open>updated_at\<close> becomes \<open>T1\<close>; \<open>B\<close>, still on \<open>T0\<close>, saves,
  is told \<open>Saved\<close>, and the row holds \<open>B\<close>'s content.
\<close>

theorem stale_save_succeeds:
  "(let a = editing (JStr ''A''); b = editing (JStr ''B'');
        wa = run [ClickSave ''n1'', Reply 0 None ''T1'', Reply 0 None ''T1''] (a, store0);
        wb = run [ClickSave ''n2'', Reply 0 None ''T2'', Reply 0 None ''T2''] (b, snd wa)
    in map_option updated_at (document (st b)) = Some ''T0''
     \<and> map updated_at (documents (snd wa)) = [''T1'']
     \<and> map doc_content (documents (snd wa)) = [JStr ''A'']
     \<and> toasts (fst wb) = [(''Saved'', ''Document saved successfully'')]
     \<and> map doc_content (documents (snd wb)) = [JStr ''B''])"
proof -
  note a = editing_fields [of "JStr ''A''"]
  note b = editing_fields [of "JStr ''B''"]
  note sa = save_completes [OF a(3) a(8) a(7) a(9), unfolded a(10) list.size]
  note sb = save_completes [OF b(3) b(8) b(7) b(9), unfolded b(10) list.size]
  show ?thesis
    unfolding Let_def run.simps(2) [of "ClickSave _"] click_save [OF a(1) a(4) a(7)]
      click_save [OF b(1) b(4) b(7)]
    by (simp only: sa sb) (simp add: editing_fields store0_def draft_def)
qed

section \<open>Remote updates and local edits\<close>

text \<open>
  C2, as the code has it. The handler does not look at \<^verbatim>\<open>hasUnsavedChanges\<close>. With
  unsaved local edits in the editor, a sequence of change-feed notifications leaves the
  editor content as it was only if none of them passes the handler's gate (the open
  document's id, truthy content, an \<^verbatim>\<open>updated_at\<close> other than the handler's
  \<^verbatim>\<open>lastSaved\<close>); otherwise the editor holds the content of the last notification
  that passed. The unsaved-changes flag stays set either way.
\<close>

theorem remote_updates_while_dirty:
  assumes "subscribed c" "editor c = Some local" "hasUnsavedChanges (st c)"
  shows "editor (fst (run (map Remote ps) (c, d))) =
           (case filter (applies (changeClosure c) (documentId c)) ps of
              [] \<Rightarrow> Some local
            | q # qs \<Rightarrow> Some (delivered (last (q # qs))))
         \<and> hasUnsavedChanges (st (fst (run (map Remote ps) (c, d))))"
  using assms
proof (induction ps arbitrary: c local)
  case Nil
  then show ?case by simp
next
  case (Cons p ps)
  let ?c1 = "handleDocumentChange (changeClosure c) p c"
  let ?l1 = "if applies (changeClosure c) (documentId c) p then delivered p else local"
  have e1: "editor ?c1 = Some ?l1"
    using remote_step [OF Cons.prems(1,2), of p d] Cons.prems(1) by simp
  have s1: "subscribed ?c1" and h1: "hasUnsavedChanges (st ?c1)"
    using Cons.prems by simp_all
  have st: "step (Remote p) (c, d) = (?c1, d)"
    using Cons.prems(1) by simp
  from Cons.IH [OF s1 e1 h1] show ?case
    by (simp only: list.map run.simps st) (simp split: list.splits)
qed

theorem remote_updates_while_dirty_witness:
  "subscribed (editing (JStr ''mine'')) \<and> editor (editing (JStr ''mine'')) = Some (JStr ''mine'') \<and> hasUnsavedChanges (st (editing (JStr ''mine'')))
   \<and> editor (fst (run (map Remote
        [\<lparr>eventType = ''UPDATE'', new = Some (draft\<lparr>doc_id := ''d2'', doc_content := JStr ''other''\<rparr>)\<rparr>,
         \<lparr>eventType = ''DELETE'', new = None\<rparr>]) (editing (JStr ''mine''), store0))) = Some (JStr ''mine'')
   \<and> editor (fst (run (map Remote
        [\<lparr>eventType = ''UPDATE'', new = Some (draft\<lparr>doc_content := JStr ''theirs'', updated_at := ''T1''\<rparr>)\<rparr>,
         \<lparr>eventType = ''DELETE'', new = None\<rparr>]) (editing (JStr ''mine''), store0))) = Some (JStr ''theirs'')"
proof -
  have h: "subscribed (editing (JStr ''mine''))" "editor (editing (JStr ''mine'')) = Some (JStr ''mine'')" "hasUnsavedChanges (st (editing (JStr ''mine'')))"
    by (simp_all add: editing_fields)
  show ?thesis
    using h remote_updates_while_dirty [OF h, of
        "[\<lparr>eventType = ''UPDATE'', new = Some (draft\<lparr>doc_id := ''d2'', doc_content := JStr ''other''\<rparr>)\<rparr>,
         \<lparr>eventType = ''DELETE'', new = None\<rparr>]" store0]
      remote_updates_while_dirty [OF h, of
        "[\<lparr>eventType = ''UPDATE'', new = Some (draft\<lparr>doc_content := JStr ''theirs'', updated_at := ''T1''\<rparr>)\<rparr>,
         \<lparr>eventType = ''DELETE'', new = None\<rparr>]" store0]
    by (simp add: applies_def delivered_def incoming_def editing_fields draft_def)
qed

text \<open>
  C2, as stated, fails: the session has the unsaved local edit \<open>mine\<close>, a remote update
  of the open document arrives, and the editor holds \<open>theirs\<close>.
\<close>

theorem remote_update_replaces_dirty_content:
  "hasUnsavedChanges (st (fst (run [LocalEdit (JStr ''mine'')] (session0, store0))))
   \<and> editor (fst (run [LocalEdit (JStr ''mine'')] (session0, store0))) = Some (JStr ''mine'')
   \<and> editor (fst (run [LocalEdit (JStr ''mine''),
        Remote \<lparr>eventType = ''UPDATE'',
                new = Some (draft\<lparr>doc_content := JStr ''theirs'', updated_at := ''T1''\<rparr>)\<rparr>]
        (session0, store0))) = Some (JStr ''theirs'')"
  by (simp add: session0_fields handleDocumentChange_editor incoming_def draft_def)

section \<open>What a save writes\<close>

text \<open>
  C3. After any non-empty sequence of local edits, a save whose update the store
  executes writes to the document's row the content of the last edit made before the
  save began; edits made while the save is in flight do not change what is written.
  This holds for the Save button and for every other caller of \<^verbatim>\<open>saveDocument\<close>
  (the key handler, a timer), whatever render its closure \<open>cl\<close> comes from, as long
  as the guard lets the call through.
\<close>

theorem save_persists_last_edit:
  assumes "mounted c" "editor c \<noteq> None" "cs \<noteq> []"
    "find_document (documentId c) d = Some row"
    and "document (st c) = Some r" "user (st c) = Some uid" "\<not> saving (st c)"
    and "document cl = Some r'" "user cl = Some uid'" "\<not> saving cl"
  shows "map_option doc_content (find_document (documentId c)
           (snd (run (map LocalEdit cs @ ClickSave now # map LocalEdit later @
                        [Reply (length (inflight c)) None sn]) (c, d)))) = Some (last cs)
       \<and> map_option doc_content (find_document (documentId c)
           (snd (run (map LocalEdit later @ [Reply (length (inflight c)) None sn])
                   (saveDocument cl now (fst (run (map LocalEdit cs) (c, d))), d))))
           = Some (last cs)"
proof -
  define c1 where "c1 = fst (run (map LocalEdit cs) (c, d))"
  have e1: "run (map LocalEdit cs) (c, d) = (c1, d)"
    using edits_run [OF assms(1,2), of cs d] by (simp add: c1_def prod_eq_iff)
  have f1: "mounted c1" "hasUnsavedChanges (st c1)" "\<not> saving (st c1)"
    "document (st c1) = Some r" "user (st c1) = Some uid"
    using edits_run [OF assms(1,2), of cs d] assms by (simp_all add: c1_def)
  have e2: "step (ClickSave now) (c1, d) = (saveDocument (st c1) now c1, d)"
    using f1(1-3) by (rule click_save)
  have button: "snd (run (map LocalEdit cs @ ClickSave now # map LocalEdit later @
                        [Reply (length (inflight c)) None sn]) (c, d)) =
                snd (run (map LocalEdit later @ [Reply (length (inflight c)) None sn])
                   (saveDocument (st c1) now c1, d))"
    by (simp only: run_append run.simps e1 e2)
  show ?thesis
    unfolding button
    using save_after_edits [OF assms(1-3) f1(4) f1(5) f1(3), of later sn now d]
      save_after_edits [OF assms(1-3) assms(8) assms(9) assms(10), of later sn now d] assms(4)
    by (simp add: c1_def find_document_saved del: perform.simps)
qed

theorem save_persists_last_edit_witness:
  "mounted session0 \<and> editor session0 \<noteq> None
   \<and> [JStr ''a'', JStr ''ab'', JStr ''abc''] \<noteq> []
   \<and> find_document (documentId session0) store0 = Some draft
   \<and> document (st session0) = Some draft
   \<and> user (st session0) = Some ''u1'' \<and> \<not> saving (st session0)
   \<and> map_option doc_content (find_document (documentId session0)
        (snd (run (map LocalEdit [JStr ''a'', JStr ''ab'', JStr ''abc''] @ ClickSave ''n1'' #
                     map LocalEdit [JStr ''abcd''] @ [Reply 0 None ''T1''])
                (session0, store0)))) = Some (JStr ''abc'')"
proof -
  have e: "editor session0 \<noteq> None" by (simp add: session0_fields)
  have n: "[JStr ''a'', JStr ''ab'', JStr ''abc''] \<noteq> []" by simp
  have f: "find_document (documentId session0) store0 = Some draft"
    by (simp add: find_document_def session0_fields store0_def draft_def)
  show ?thesis
    using save_persists_last_edit [OF session0_fields(1) e n f session0_fields(4)
        session0_fields(5) session0_fields(6) session0_fields(4) session0_fields(5)
        session0_fields(6), of "''n1''" "[JStr ''abcd'']" "''T1''"]
    using e f by (simp add: session0_fields)
qed

section \<open>Auto-save, concurrent saves and closing\<close>

text \<open>
  C4 does not hold of the code. With the default interval of 10 seconds, edits at
  0 s and at 5 s are followed by a save at 10 s, five seconds after the last edit:
  the timer armed by the first edit is not restarted by the second, because the
  effect runs only when \<^verbatim>\<open>hasUnsavedChanges\<close> changes. The settings dialog
  describes the interval as seconds of inactivity. With edits at 0, 4, 8, 12, 16, 20,
  24 and 25 s, each save answered at once, saves begin at 10 s, 22 s and 34 s: three
  saves, the last one nine seconds after the final edit.
\<close>

theorem autosave_fires_after_first_edit:
  "issued (fst (run [LocalEdit (JStr ''a''), Advance 5000 ''n1'', LocalEdit (JStr ''ab''),
                     Advance 5000 ''n2''] (session0, store0))) =
     [(10000, UpdateDocuments ''d1''
        \<lparr>set_title = Some ''Draft'', set_content = Some (JStr ''ab''),
         set_updated_at = Some ''n2''\<rparr>)]
   \<and> [t. (t, UpdateDocuments i p) \<leftarrow> issued (fst (run
         [LocalEdit (JStr ''a''), Advance 4000 ''n'', LocalEdit (JStr ''b''), Advance 4000 ''n'',
          LocalEdit (JStr ''c''), Advance 2000 ''n1'', Reply 0 None ''T1'', Reply 0 None ''T1'',
          Advance 2000 ''n'', LocalEdit (JStr ''d''), Advance 4000 ''n'', LocalEdit (JStr ''e''),
          Advance 4000 ''n'', LocalEdit (JStr ''f''), Advance 2000 ''n2'', Reply 0 None ''T2'',
          Reply 0 None ''T2'', Advance 2000 ''n'', LocalEdit (JStr ''g''), Advance 1000 ''n'',
          LocalEdit (JStr ''h''), Advance 10000 ''n3'']
         (session0, store0)))] = [10000, 22000, 34000]"
  by (simp add: evaluate)

text \<open>
  C5 does not hold of the code. A call that sees \<^verbatim>\<open>saving\<close> set returns at once
  (\<open>saveDocument_guarded\<close>), and the Save button is disabled meanwhile
  (\<open>click_save_disabled\<close>). But the key handler and a pending timer keep the
  \<^verbatim>\<open>saveDocument\<close> of the render that created them, in which \<^verbatim>\<open>saving\<close> is
  false, so its guard lets them through while a save is in flight: after one edit, two
  presses of Ctrl+S and the timer coming due, three updates await their reply.
\<close>

theorem second_save_begins_while_saving:
  "map fst (inflight (fst (run [LocalEdit (JStr ''a''), CtrlS ''n1'', CtrlS ''n2'',
                                Advance 10000 ''n3''] (session0, store0)))) =
     [UpdateDocuments ''d1'' \<lparr>set_title = Some ''Draft'', set_content = Some (JStr ''a''),
         set_updated_at = Some ''n1''\<rparr>,
      UpdateDocuments ''d1'' \<lparr>set_title = Some ''Draft'', set_content = Some (JStr ''a''),
         set_updated_at = Some ''n2''\<rparr>,
      UpdateDocuments ''d1'' \<lparr>set_title = Some ''Draft'', set_content = Some (JStr ''a''),
         set_updated_at = Some ''n3''\<rparr>]"
  by (simp add: evaluate)

text \<open>
  C6 does not hold of the code. The cleanup registered by the auto-save effect clears
  the timer of the render before the one that armed the pending timer; closing the
  editor five seconds after an edit leaves that timer pending, and at ten seconds it
  runs \<^verbatim>\<open>saveDocument\<close>, which issues the update. Closing twice is closing once
  (\<open>close_twice\<close>) and the channel is removed (\<open>close_unsubscribes\<close>).
\<close>

theorem timer_survives_close:
  "map fst (timers (fst (run [LocalEdit (JStr ''a''), Advance 5000 ''n1'', Close]
                          (session0, store0)))) = [1]
   \<and> mounted (fst (run [LocalEdit (JStr ''a''), Advance 5000 ''n1'', Close]
                          (session0, store0))) = False
   \<and> issued (fst (run [LocalEdit (JStr ''a''), Advance 5000 ''n1'', Close, Advance 5000 ''n2'']
                          (session0, store0))) =
       [(10000, UpdateDocuments ''d1''
          \<lparr>set_title = Some ''Draft'', set_content = Some (JStr ''a''),
           set_updated_at = Some ''n2''\<rparr>)]"
  by (simp add: evaluate)

section \<open>Activity records\<close>

text \<open>
  C7. When the store has executed the update of a save or of a rename, a failing
  activity insert changes nothing else: the save still clears the unsaved-changes
  flag, sets \<^verbatim>\<open>lastSaved\<close> and reports \<open>Saved\<close>, the rename still sets the title
  and leaves title editing, the row keeps what was written, and no error is shown.
\<close>

theorem activity_failure_is_swallowed:
  assumes "editor c = Some v" "document cl = Some r" "\<not> saving cl" "user cl = Some uid"
    "trim newTitle \<noteq> []"
  shows "(let k = length (inflight c);
              w = run [Reply k None sn, Reply k (Some message) sn'] (saveDocument cl now c, d)
          in toasts (fst w) = toasts c @ [(''Saved'', ''Document saved successfully'')]
           \<and> lastSaved (st (fst w)) = Some now
           \<and> hasUnsavedChanges (st (fst w)) = False
           \<and> saving (st (fst w)) = False
           \<and> documents (snd w) =
                map (\<lambda>r. if doc_id r = documentId c
                          then r\<lparr>doc_title := title cl, doc_content := v, updated_at := sn\<rparr>
                          else r) (documents d)
           \<and> document_activity (snd w) = document_activity d)
       \<and> (let k = length (inflight c);
              w = run [Reply k None sn, Reply k (Some message) sn'] (updateTitle cl newTitle c, d)
          in toasts (fst w) = toasts c @
                [(''Title updated'', ''Document title has been updated successfully'')]
           \<and> title (st (fst w)) = trim newTitle
           \<and> isEditingTitle (st (fst w)) = False
           \<and> documents (snd w) =
                map (\<lambda>r. if doc_id r = documentId c
                          then r\<lparr>doc_title := trim newTitle, updated_at := sn\<rparr>
                          else r) (documents d)
           \<and> document_activity (snd w) = document_activity d)"
  unfolding Let_def
  using save_completes [OF assms(1-4)]
    updateTitle_completes [OF assms(2) assms(4) assms(5)]
  by simp

theorem activity_failure_is_swallowed_witness:
  "editor (editing (JStr ''A'')) = Some (JStr ''A'') \<and> document (st (editing (JStr ''A''))) = Some draft
   \<and> \<not> saving (st (editing (JStr ''A''))) \<and> user (st (editing (JStr ''A''))) = Some ''u1''
   \<and> trim ''Report'' \<noteq> []
   \<and> (let w = run [Reply 0 None ''T1'', Reply 0 (Some ''offline'') ''T2'']
                 (saveDocument (st (editing (JStr ''A''))) ''n1'' (editing (JStr ''A'')), store0)
       in toasts (fst w) = [(''Saved'', ''Document saved successfully'')]
        \<and> lastSaved (st (fst w)) = Some ''n1''
        \<and> hasUnsavedChanges (st (fst w)) = False
        \<and> documents (snd w) = [draft\<lparr>doc_content := JStr ''A'', updated_at := ''T1''\<rparr>]
        \<and> document_activity (snd w) = [])
   \<and> (let w = run [Reply 0 None ''T1'', Reply 0 (Some ''offline'') ''T2'']
                 (updateTitle (st (editing (JStr ''A''))) ''Report'' (editing (JStr ''A'')), store0)
       in title (st (fst w)) = ''Report''
        \<and> documents (snd w) = [draft\<lparr>doc_title := ''Report'', updated_at := ''T1''\<rparr>]
        \<and> document_activity (snd w) = [])"
proof -
  note a = editing_fields [of "JStr ''A''"]
  have t: "trim ''Report'' = ''Report''"
    by (simp add: trim_def is_space_def)
  then have t': "trim ''Report'' \<noteq> []" by simp
  show ?thesis
    using activity_failure_is_swallowed [OF a(3) a(8) a(7) a(9) t',
        of "''T1''" "''offline''" "''T2''" "''n1''" store0]
    by (simp add: Let_def editing_fields t store0_def draft_def)
qed

text \<open>
  A rename committed through the title field, from the session's title to the trimmed
  input, writes the trimmed input to the row and issues exactly one activity insert;
  the store appends exactly one entry, with action \<open>renamed\<close> and the two titles as
  details.
\<close>

lemma title_field_rename_is_recorded:
  assumes "mounted c" "document (st c) = Some r" "user (st c) = Some uid"
    "trim t \<noteq> []" "t \<noteq> title (st c)"
  shows "(let k = length (inflight c);
              w = run [TitleEdit, TitleInput t, TitleSave, Reply k None sn, Reply k None sn'] (c, d)
          in document_activity (snd w) = document_activity d @
               [\<lparr>document_id = documentId c, user_id = uid, action = ''renamed'',
                 details = JObj [(''old_title'', JStr (title (st c))),
                                 (''new_title'', JStr (trim t))],
                 recorded_at = sn'\<rparr>]
           \<and> documents (snd w) =
               map (\<lambda>r. if doc_id r = documentId c
                         then r\<lparr>doc_title := trim t, updated_at := sn\<rparr> else r) (documents d)
           \<and> title (st (fst w)) = trim t
           \<and> map snd (issued (fst w)) = map snd (issued c) @
               [UpdateDocuments (documentId c)
                  \<lparr>set_title = Some (trim t), set_content = None, set_updated_at = None\<rparr>,
                InsertActivity (documentId c) uid ''renamed''
                  (JObj [(''old_title'', JStr (title (st c))), (''new_title'', JStr (trim t))])])"
proof -
  define c1 where "c1 = handleTitleEdit (st c) c"
  define c2 where "c2 = render (c1\<lparr>st := (st c1)\<lparr>tempTitle := t\<rparr>\<rparr>)"
  have f2: "document (st c2) = Some r" "user (st c2) = Some uid" "inflight c2 = inflight c"
    "title (st c2) = title (st c)" "documentId c2 = documentId c" "issued c2 = issued c"
    using assms by (simp_all add: c2_def c1_def handleTitleEdit_def)
  have e: "run [TitleEdit, TitleInput t, TitleSave] (c, d) = (updateTitle (st c2) t c2, d)"
    using assms(1,4,5)
    by (simp add: c2_def c1_def handleTitleSave_def handleTitleEdit_def)
  have r: "run [TitleEdit, TitleInput t, TitleSave, Reply k None sn, Reply k None sn'] (c, d)
            = run [Reply k None sn, Reply k None sn'] (updateTitle (st c2) t c2, d)" for k
    using run_append [of "[TitleEdit, TitleInput t, TitleSave]"
        "[Reply k None sn, Reply k None sn']" "(c, d)"] e by simp
  show ?thesis
    unfolding Let_def r
    using updateTitle_completes [OF f2(1) f2(2) assms(4), of c2 sn None sn' d] f2
    by simp
qed

text \<open>
  C8 does not hold of the code. The title field records the rename
  (\<open>title_field_rename_is_recorded\<close>), but the settings dialog renames the document
  without an activity entry: with the title changed from \<open>Draft\<close> to \<open>Report\<close> in
  the dialog and the update executed, the row and the session have the new title, no
  call is left in flight, the update is the only call issued, and the activity table
  is empty.
\<close>

theorem settings_rename_is_not_recorded:
  "map doc_title (documents (snd (run [SettingsSave ''Report'' True 10, Reply 0 None ''T1'']
      (session0, store0)))) = [''Report'']
   \<and> title (st (fst (run [SettingsSave ''Report'' True 10, Reply 0 None ''T1'']
      (session0, store0)))) = ''Report''
   \<and> document_activity (snd (run [SettingsSave ''Report'' True 10, Reply 0 None ''T1'']
      (session0, store0))) = []
   \<and> inflight (fst (run [SettingsSave ''Report'' True 10, Reply 0 None ''T1'']
      (session0, store0))) = []
   \<and> map snd (issued (fst (run [SettingsSave ''Report'' True 10, Reply 0 None ''T1'']
      (session0, store0)))) =
       [UpdateDocuments ''d1''
          \<lparr>set_title = Some ''Report'', set_content = None, set_updated_at = None\<rparr>]"
  by (simp add: evaluate)

section \<open>Titles\<close>

text \<open>
  C9 does not hold of the code. \<^verbatim>\<open>updateTitle\<close> returns without writing when the
  trimmed title is empty (\<open>updateTitle_blank\<close>), but \<^verbatim>\<open>saveSettings\<close> writes
  whatever the dialog's title field holds: saving the settings with an empty title
  stores the empty title.
\<close>

theorem settings_save_stores_empty_title:
  "map doc_title (documents (snd (run [SettingsSave [] True 10, Reply 0 None ''T1'']
      (session0, store0)))) = [[]]"
  by (simp add: evaluate)

section \<open>The gate of remote updates\<close>

text \<open>
  C10, as the code has it. A change-feed document event replaces the editor content
  with the event's content (as \<open>incoming\<close> prepares it) if and only if the event
  carries a new row, the row's id is the open document's, an editor exists, the row's
  content is truthy, and the row's \<^verbatim>\<open>updated_at\<close> differs from the ISO string of the
  \<^verbatim>\<open>lastSaved\<close> the handler holds (an absent \<^verbatim>\<open>lastSaved\<close> differs from every
  string). Neither the unsaved-changes flag nor the user takes part, so the echo of the
  session's own save, stamped by the store's trigger, is applied again.
\<close>

theorem change_gate:
  "editor (handleDocumentChange cl p c) =
     (case new p of
        None \<Rightarrow> editor c
      | Some row \<Rightarrow>
          if doc_id row = documentId c \<and> editor c \<noteq> None \<and> truthy (doc_content row)
             \<and> Some (updated_at row) \<noteq> lastSaved cl
          then Some (incoming (doc_content row)) else editor c)
   \<and> editor (handleDocumentChange cl p (c\<lparr>st := (st c)\<lparr>hasUnsavedChanges := dirty, user := u\<rparr>\<rparr>))
       = editor (handleDocumentChange cl p c)"
  by (auto simp add: handleDocumentChange_editor split: option.splits)

text \<open>
  C10, as stated, fails: the event is for the open document and its \<^verbatim>\<open>updated_at\<close>
  differs from \<^verbatim>\<open>lastSaved\<close>, but its content is \<^verbatim>\<open>null\<close>, and the editor content
  is not replaced.
\<close>

theorem falsy_content_not_applied:
  "doc_id (draft\<lparr>doc_content := JNull, updated_at := ''T1''\<rparr>) = documentId session0
   \<and> Some (updated_at (draft\<lparr>doc_content := JNull, updated_at := ''T1''\<rparr>))
        \<noteq> lastSaved (changeClosure session0)
   \<and> editor (handleDocumentChange (changeClosure session0)
        \<lparr>eventType = ''UPDATE'', new = Some (draft\<lparr>doc_content := JNull, updated_at := ''T1''\<rparr>)\<rparr>
        session0) = editor session0
   \<and> editor session0 \<noteq> Some (incoming (doc_content (draft\<lparr>doc_content := JNull, updated_at := ''T1''\<rparr>)))
   \<and> editor (handleDocumentChange (changeClosure session0)
        \<lparr>eventType = ''UPDATE'',
         new = Some (draft\<lparr>doc_content := JStr ''theirs'', updated_at := ''T1''\<rparr>)\<rparr>
        (session0\<lparr>editor := None\<rparr>)) = None"
  by (simp add: session0_fields handleDocumentChange_editor incoming_def draft_def)

end
